theory Spec2Isabelle
  imports Complex_Main "HOL-Library.Multiset" "HOL-Library.Product_Lexorder"
begin

section \<open>Helpdesk ticket assignment engine of eventbridge_plus\<close>

text \<open>
  A shallow embedding of the helpdesk assignment engine (\<^verbatim>\<open>assign_request.py\<close>) and
  of the ticket lifecycle (\<^verbatim>\<open>helpdesk.py\<close>: \<^verbatim>\<open>get_valid_status_transitions\<close>,
  \<^verbatim>\<open>is_valid_status_transition\<close>, \<^verbatim>\<open>validate_status_transition\<close>,
  \<^verbatim>\<open>update_help_request_status\<close>).

  Conventions of the embedding.
  \<^item> The relational store is a record of two tables, each a list of rows in table order.
    Column names are kept, except that the two \<^verbatim>\<open>status\<close> columns and the two
    \<^verbatim>\<open>user_id\<close> columns need distinct field names: \<open>user_status\<close> is
    \<^verbatim>\<open>users.status\<close> and \<open>requester_id\<close> is \<^verbatim>\<open>help_requests.user_id\<close>.
  \<^item> Priorities, statuses and roles are strings, as in the code, which compares them with
    string literals and looks them up in dictionaries with a default.
  \<^item> A \<^verbatim>\<open>datetime\<close> is a real number of seconds on a common time line; the clock
    reading (\<^verbatim>\<open>datetime.now()\<close>, SQL \<^verbatim>\<open>NOW()\<close>) is the parameter \<open>now\<close>.
  \<^item> A Python \<^verbatim>\<open>float\<close> is a real number or \<^verbatim>\<open>float('inf')\<close>; rounding is
    not modelled.
  \<^item> Every cursor call may raise. Which calls raise is the parameter \<open>raises\<close>, a
    predicate on the queries the engine issues; each \<^verbatim>\<open>try\<close>/\<^verbatim>\<open>except\<close> of the
    source is a branch on it.
  \<^item> Notifications (\<^verbatim>\<open>create_noti\<close>) are wrapped in \<^verbatim>\<open>try\<close>/\<^verbatim>\<open>except: pass\<close> in
    \<^verbatim>\<open>update_help_request_status\<close> and never touch the two tables; they are left out.
\<close>

subsection \<open>Data model\<close>

type_synonym datetime = real

record user =
  user_id :: nat
  platform_role :: string
  user_status :: string

record help_request =
  request_id :: nat
  requester_id :: nat
  priority :: string
  status :: string
  assigned_to :: "nat option"
  created_at :: datetime
  updated_at :: "datetime option"
  resolved_at :: "datetime option"

record database =
  users :: "user list"
  help_requests :: "help_request list"

text \<open>The queries of the engine, each with the key it is issued for.\<close>

datatype query =
  Technicians_Query
  | Workload_Query nat
  | Count_Query nat
  | Request_Info_Query nat
  | Update_Query nat
  | Staff_Query nat

type_synonym faults = "query \<Rightarrow> bool"

definition no_faults :: faults where
  "no_faults = (\<lambda>q. False)"

subsection \<open>Python dictionaries and strings\<close>

text \<open>\<^verbatim>\<open>d.get(k, default)\<close> on a dictionary literal, written as its list of items.\<close>

definition dict_get :: "('k \<times> 'v) list \<Rightarrow> 'k \<Rightarrow> 'v \<Rightarrow> 'v" where
  "dict_get d k dflt = (case map_of d k of None \<Rightarrow> dflt | Some v \<Rightarrow> v)"

text \<open>\<^verbatim>\<open>sep.join(xs)\<close>.\<close>

fun join :: "string \<Rightarrow> string list \<Rightarrow> string" where
  "join sep [] = []"
| "join sep [x] = x"
| "join sep (x # y # ys) = x @ sep @ join sep (y # ys)"

definition quoted :: "string \<Rightarrow> string" where
  "quoted s = [CHR 0x27] @ s @ [CHR 0x27]"

subsection \<open>Ticket lifecycle (helpdesk.py)\<close>

definition status_transitions :: "(string \<times> string list) list" where
  "status_transitions =
     [(''new'', [''assigned'', ''solved'']),
      (''assigned'', [''new'', ''blocked'', ''solved'']),
      (''blocked'', [''new'', ''assigned'', ''solved'']),
      (''solved'', [])]"

definition get_valid_status_transitions :: "string \<Rightarrow> string list" where
  "get_valid_status_transitions current_status = dict_get status_transitions current_status []"

definition is_valid_status_transition :: "string \<Rightarrow> string \<Rightarrow> bool" where
  "is_valid_status_transition current_status new_status \<longleftrightarrow>
     new_status \<in> set (get_valid_status_transitions current_status)"

text \<open>The result is the error message, or \<open>None\<close> when the transition is accepted.\<close>

definition validate_status_transition :: "string \<Rightarrow> string \<Rightarrow> string option" where
  "validate_status_transition current_status new_status =
     (if current_status = new_status then None
      else if \<not> is_valid_status_transition current_status new_status then
        (if current_status = ''solved'' then
           Some (''Cannot change status from '' @ quoted current_status
                 @ ''. This request is already solved.'')
         else
           Some (''Cannot change status from '' @ quoted current_status @ '' to ''
                 @ quoted new_status @ ''. Valid transitions: ''
                 @ join '', '' (get_valid_status_transitions current_status)))
      else None)"

text \<open>Python truth value of an optional string: \<^verbatim>\<open>None\<close> and \<^verbatim>\<open>''\<close> are false.\<close>

definition truthy :: "string option \<Rightarrow> bool" where
  "truthy m = (case m of None \<Rightarrow> False | Some s \<Rightarrow> s \<noteq> [])"

text \<open>
  The first row of
  \<^verbatim>\<open>help_requests hr JOIN users u ON hr.user_id = u.user_id WHERE hr.request_id = %s\<close>:
  the first ticket with that id whose requester is in \<^verbatim>\<open>users\<close>.
\<close>

definition request_info :: "database \<Rightarrow> nat \<Rightarrow> help_request option" where
  "request_info db rid =
     find (\<lambda>t. request_id t = rid \<and> (\<exists>u \<in> set (users db). user_id u = requester_id t))
       (help_requests db)"

text \<open>
  The \<^verbatim>\<open>SET\<close> clause that \<^verbatim>\<open>update_help_request_status\<close> builds in
  \<^verbatim>\<open>update_fields\<close>, applied to one row.
\<close>

definition set_fields ::
  "datetime \<Rightarrow> string \<Rightarrow> nat option \<Rightarrow> string option \<Rightarrow> help_request \<Rightarrow> help_request" where
  "set_fields now new_status new_assigned_to new_priority t =
     (let t1 = t\<lparr>status := new_status, updated_at := Some now\<rparr>;
          t2 = (case new_assigned_to of
                  Some a \<Rightarrow> t1\<lparr>assigned_to := Some a\<rparr>
                | None \<Rightarrow> t1\<lparr>assigned_to := None\<rparr>);
          t3 = (case new_priority of
                  Some p \<Rightarrow> t2\<lparr>priority := p\<rparr>
                | None \<Rightarrow> t2);
          t4 = (if new_status = ''resolved'' then t3\<lparr>resolved_at := Some now\<rparr> else t3)
      in t4)"

text \<open>
  Modelled from the spec: the module \<^verbatim>\<open>db\<close> (\<^verbatim>\<open>db.get_cursor\<close>) is not among the
  sources. The spec gives the store "atomic single-row updates", and each operation is
  "an ordinary sequence of store reads followed by one write, with no transaction or row
  lock spanning the decide-then-commit window": an \<^verbatim>\<open>UPDATE\<close> that does not raise is
  in the store at once and nothing undoes it. It rewrites every row
  \<^verbatim>\<open>WHERE request_id = %s\<close>.
\<close>

definition execute_update :: "database \<Rightarrow> nat \<Rightarrow> (help_request \<Rightarrow> help_request) \<Rightarrow> database" where
  "execute_update db rid f =
     db\<lparr>help_requests := map (\<lambda>t. if request_id t = rid then f t else t) (help_requests db)\<rparr>"

text \<open>
  \<^verbatim>\<open>update_help_request_status(request_id, status, assigned_to=None, priority=None,
  bypass_validation=False)\<close>. The result is the returned boolean and the store afterwards.
  The staff lookup (\<^verbatim>\<open>SELECT first_name, last_name FROM users\<close>) runs after the
  \<^verbatim>\<open>UPDATE\<close>, outside any inner \<^verbatim>\<open>try\<close>; when it raises, the outer
  \<^verbatim>\<open>except\<close> returns \<^verbatim>\<open>False\<close>.
\<close>

definition update_help_request_status ::
  "faults \<Rightarrow> datetime \<Rightarrow> database \<Rightarrow> nat \<Rightarrow> string \<Rightarrow> nat option \<Rightarrow> string option \<Rightarrow> bool
     \<Rightarrow> bool \<times> database" where
  "update_help_request_status raises now db rid new_status new_assigned_to new_priority
       bypass_validation =
     (if raises (Request_Info_Query rid) then (False, db)
      else case request_info db rid of
        None \<Rightarrow> (False, db)
      | Some info \<Rightarrow>
          if \<not> bypass_validation \<and> truthy (validate_status_transition (status info) new_status)
          then (False, db)
          else if raises (Update_Query rid) then (False, db)
          else
            let db' = execute_update db rid
                        (set_fields now new_status new_assigned_to new_priority)
            in (case new_assigned_to of
                  Some a \<Rightarrow>
                    if assigned_to info \<noteq> new_assigned_to \<and> raises (Staff_Query a)
                    then (False, db')
                    else (True, db')
                | None \<Rightarrow> (True, db')))"

subsection \<open>Python floats\<close>

text \<open>
  The values a workload score takes: a real number, or \<^verbatim>\<open>float('inf')\<close>. The order
  is that of Python's \<^verbatim>\<open><\<close> and \<^verbatim>\<open><=\<close> on floats.
\<close>

datatype pyfloat = Finite real | PosInf

instantiation pyfloat :: linorder
begin

definition less_eq_pyfloat :: "pyfloat \<Rightarrow> pyfloat \<Rightarrow> bool" where
  "less_eq_pyfloat x y =
     (case y of PosInf \<Rightarrow> True
      | Finite b \<Rightarrow> (case x of PosInf \<Rightarrow> False | Finite a \<Rightarrow> a \<le> b))"

definition less_pyfloat :: "pyfloat \<Rightarrow> pyfloat \<Rightarrow> bool" where
  "less_pyfloat x y =
     (case x of PosInf \<Rightarrow> False
      | Finite a \<Rightarrow> (case y of PosInf \<Rightarrow> True | Finite b \<Rightarrow> a < b))"

instance
  by standard (auto simp: less_eq_pyfloat_def less_pyfloat_def split: pyfloat.splits)

end

text \<open>\<^verbatim>\<open>x + n\<close> for a float \<open>x\<close> and a non-negative Python int \<open>n\<close>.\<close>

definition float_add :: "pyfloat \<Rightarrow> nat \<Rightarrow> pyfloat" where
  "float_add x n = (case x of Finite a \<Rightarrow> Finite (a + real n) | PosInf \<Rightarrow> PosInf)"

subsection \<open>Technician directory (assign_request.py)\<close>

text \<open>
  \<^verbatim>\<open>get_available_technicians(priority='medium')\<close>: the two \<^verbatim>\<open>SELECT ... FROM users
  ... ORDER BY user_id\<close>, and \<^verbatim>\<open>[]\<close> from the \<^verbatim>\<open>except\<close> clause.
\<close>

definition get_available_technicians :: "faults \<Rightarrow> database \<Rightarrow> string \<Rightarrow> user list" where
  "get_available_technicians raises db prio =
     (if raises Technicians_Query then []
      else if prio = ''high'' then
        sort_key user_id
          (filter (\<lambda>u. platform_role u = ''super_admin'' \<and> user_status u = ''active'')
             (users db))
      else
        sort_key user_id
          (filter (\<lambda>u. platform_role u \<in> set [''super_admin'', ''support_technician'']
                       \<and> user_status u = ''active'')
             (users db)))"

subsection \<open>Workload scorer (assign_request.py)\<close>

definition PRIORITY_WEIGHTS :: "(string \<times> real) list" where
  "PRIORITY_WEIGHTS = [(''urgent'', 4.0), (''medium'', 2.0), (''low'', 1.0)]"

definition STATUS_WEIGHTS :: "(string \<times> real) list" where
  "STATUS_WEIGHTS = [(''assigned'', 1.0), (''blocked'', 0.5)]"

text \<open>\<^verbatim>\<open>WHERE assigned_to = %s AND status IN ('assigned', 'blocked')\<close>.\<close>

definition active_load :: "database \<Rightarrow> nat \<Rightarrow> help_request list" where
  "active_load db tid =
     filter (\<lambda>t. assigned_to t = Some tid \<and> status t \<in> set [''assigned'', ''blocked''])
       (help_requests db)"

text \<open>
  \<^verbatim>\<open>ORDER BY updated_at DESC\<close> as an ascending sort key: rows with a timestamp first, the
  latest first, then the rows whose \<^verbatim>\<open>updated_at\<close> is \<^verbatim>\<open>NULL\<close>.
\<close>

definition updated_at_desc :: "help_request \<Rightarrow> nat \<times> real" where
  "updated_at_desc t = (case updated_at t of Some u \<Rightarrow> (0, - u) | None \<Rightarrow> (1, 0))"

text \<open>The body of the \<^verbatim>\<open>for request in requests\<close> loop: the weight of one ticket.\<close>

definition request_weight :: "datetime \<Rightarrow> help_request \<Rightarrow> real" where
  "request_weight now request =
     (let priority_weight = dict_get PRIORITY_WEIGHTS (priority request) 1.0;
          status_weight = dict_get STATUS_WEIGHTS (status request) 1.0;
          assigned_time = (case updated_at request of Some u \<Rightarrow> u | None \<Rightarrow> created_at request);
          hours_since_assigned = (now - assigned_time) / 3600;
          time_factor = 1.0 + (hours_since_assigned * 0.1)
      in priority_weight * status_weight * time_factor)"

definition calculate_technician_workload ::
  "faults \<Rightarrow> database \<Rightarrow> datetime \<Rightarrow> nat \<Rightarrow> pyfloat" where
  "calculate_technician_workload raises db now technician_id =
     (if raises (Workload_Query technician_id) then PosInf
      else
        let requests = sort_key updated_at_desc (active_load db technician_id)
        in if requests = [] then Finite 0.0
           else Finite (foldl (\<lambda>workload_score request.
                                 workload_score + request_weight now request) 0.0 requests))"

text \<open>\<^verbatim>\<open>get_technician_current_workload\<close>: the \<^verbatim>\<open>COUNT(*)\<close>, or 999 from \<^verbatim>\<open>except\<close>.\<close>

definition get_technician_current_workload :: "faults \<Rightarrow> database \<Rightarrow> nat \<Rightarrow> int" where
  "get_technician_current_workload raises db technician_id =
     (if raises (Count_Query technician_id) then 999
      else int (length (active_load db technician_id)))"

subsection \<open>Single-ticket assigner (assign_request.py)\<close>

text \<open>The \<^verbatim>\<open>for technician in available_technicians\<close> loop of
  \<^verbatim>\<open>find_least_busy_technician\<close>, on the pair \<^verbatim>\<open>(best_technician, lowest_workload)\<close>.\<close>

fun least_busy_loop ::
  "faults \<Rightarrow> database \<Rightarrow> datetime \<Rightarrow> user list \<Rightarrow> user option \<times> pyfloat
     \<Rightarrow> user option \<times> pyfloat" where
  "least_busy_loop raises db now [] (best_technician, lowest_workload) =
     (best_technician, lowest_workload)"
| "least_busy_loop raises db now (technician # rest) (best_technician, lowest_workload) =
     (let workload = calculate_technician_workload raises db now (user_id technician)
      in if workload < lowest_workload
         then least_busy_loop raises db now rest (Some technician, workload)
         else least_busy_loop raises db now rest (best_technician, lowest_workload))"

definition find_least_busy_technician ::
  "faults \<Rightarrow> database \<Rightarrow> datetime \<Rightarrow> string \<Rightarrow> user option \<times> pyfloat option" where
  "find_least_busy_technician raises db now prio =
     (let available_technicians = get_available_technicians raises db prio
      in if available_technicians = [] then (None, None)
         else case least_busy_loop raises db now available_technicians (None, PosInf) of
                (best_technician, lowest_workload) \<Rightarrow> (best_technician, Some lowest_workload))"

subsection \<open>Batch distributor (assign_request.py)\<close>

text \<open>
  One value of the dictionary \<^verbatim>\<open>technician_workloads\<close>. The dictionary itself is the
  list of its items in insertion order, which is the order \<^verbatim>\<open>min\<close> iterates it in.
\<close>

record tracking =
  technician :: user
  current_workload :: pyfloat
  new_assignments :: nat

type_synonym workloads = "(nat \<times> tracking) list"

text \<open>\<^verbatim>\<open>d[k] = v\<close>: a key already present keeps its place.\<close>

fun dict_set :: "'k \<Rightarrow> 'v \<Rightarrow> ('k \<times> 'v) list \<Rightarrow> ('k \<times> 'v) list" where
  "dict_set k v [] = [(k, v)]"
| "dict_set k v ((k', v') # d) =
     (if k' = k then (k, v) # d else (k', v') # dict_set k v d)"

fun init_workloads ::
  "faults \<Rightarrow> database \<Rightarrow> datetime \<Rightarrow> user list \<Rightarrow> workloads \<Rightarrow> workloads" where
  "init_workloads raises db now [] d = d"
| "init_workloads raises db now (tech # techs) d =
     init_workloads raises db now techs
       (dict_set (user_id tech)
          \<lparr>technician = tech,
           current_workload = calculate_technician_workload raises db now (user_id tech),
           new_assignments = 0\<rparr> d)"

definition priority_rank :: "string \<Rightarrow> nat" where
  "priority_rank p = dict_get [(''urgent'', 1), (''medium'', 2), (''low'', 3)] p 4"

text \<open>
  \<^verbatim>\<open>sorted(unassigned_requests, key=lambda x: (rank, x.get('created_at', '')))\<close>. The rows
  are rows of \<^verbatim>\<open>help_requests\<close>, where \<^verbatim>\<open>created_at\<close> is always set. Python's sort is
  stable, as \<open>sort_key\<close> is.
\<close>

definition sorted_requests :: "help_request list \<Rightarrow> help_request list" where
  "sorted_requests unassigned_requests =
     sort_key (\<lambda>x. (priority_rank (priority x), created_at x)) unassigned_requests"

text \<open>The key of \<^verbatim>\<open>min\<close>: \<^verbatim>\<open>current_workload + new_assignments\<close>.\<close>

definition total_workload :: "nat \<times> tracking \<Rightarrow> pyfloat" where
  "total_workload item = float_add (current_workload (snd item)) (new_assignments (snd item))"

text \<open>
  Python's \<^verbatim>\<open>min(iterable, key=...)\<close> after the first item: a later item replaces the
  best only when its key is strictly less.
\<close>

fun min_loop :: "('a \<Rightarrow> pyfloat) \<Rightarrow> 'a list \<Rightarrow> 'a \<Rightarrow> 'a" where
  "min_loop key [] best = best"
| "min_loop key (x # xs) best =
     (if key x < key best then min_loop key xs x else min_loop key xs best)"

text \<open>\<^verbatim>\<open>technician_workloads[best_tech_id]['new_assignments'] += 1\<close>.\<close>

definition add_assignment :: "nat \<Rightarrow> workloads \<Rightarrow> workloads" where
  "add_assignment tid d =
     map (\<lambda>item. if fst item = tid
                  then (fst item, (snd item)\<lparr>new_assignments := new_assignments (snd item) + 1\<rparr>)
                  else item) d"

record batch_state =
  store :: database
  technician_workloads :: workloads
  assigned_count :: nat
  failed_assignments :: "(nat \<times> string) list"

text \<open>
  One pass of \<^verbatim>\<open>for request in sorted_requests\<close>. \<open>Inl\<close> is a raised exception with the
  store as it is then: \<^verbatim>\<open>min\<close> raises \<^verbatim>\<open>ValueError\<close> on an empty dictionary.
  \<^verbatim>\<open>update_help_request_status\<close> itself never raises.
\<close>

definition assign_one ::
  "faults \<Rightarrow> datetime \<Rightarrow> help_request \<Rightarrow> batch_state \<Rightarrow> database + batch_state" where
  "assign_one raises now request s =
     (case technician_workloads s of
        [] \<Rightarrow> Inl (store s)
      | first # others \<Rightarrow>
          let best_item = min_loop total_workload others first;
              best_tech_id = fst best_item;
              best_tech = technician (snd best_item)
          in if priority request = ''high'' \<and> platform_role best_tech \<noteq> ''super_admin'' then
               Inr (s\<lparr>failed_assignments := failed_assignments s @
                        [(request_id request,
                          ''No super admin available for high priority request'')]\<rparr>)
             else
               case update_help_request_status raises now (store s) (request_id request)
                      ''assigned'' (Some best_tech_id) (Some (priority request)) False of
                 (success, db') \<Rightarrow>
                   if success then
                     Inr (s\<lparr>store := db',
                            assigned_count := assigned_count s + 1,
                            technician_workloads :=
                              add_assignment best_tech_id (technician_workloads s)\<rparr>)
                   else
                     Inr (s\<lparr>store := db',
                            failed_assignments := failed_assignments s @
                              [(request_id request, ''Failed to update request status'')]\<rparr>))"

fun assign_requests ::
  "faults \<Rightarrow> datetime \<Rightarrow> help_request list \<Rightarrow> batch_state \<Rightarrow> database + batch_state" where
  "assign_requests raises now [] s = Inr s"
| "assign_requests raises now (request # rest) s =
     (case assign_one raises now request s of
        Inl db \<Rightarrow> Inl db
      | Inr s' \<Rightarrow> assign_requests raises now rest s')"

text \<open>
  \<^verbatim>\<open>bulk_auto_assign_balanced(unassigned_requests)\<close>: the returned pair
  \<^verbatim>\<open>(assigned_count, failed_assignments)\<close> and the store afterwards.
\<close>

definition bulk_auto_assign_balanced ::
  "faults \<Rightarrow> database \<Rightarrow> datetime \<Rightarrow> help_request list
     \<Rightarrow> (nat \<times> (nat \<times> string) list) \<times> database" where
  "bulk_auto_assign_balanced raises db now unassigned_requests =
     (let technicians = get_available_technicians raises db ''medium''
      in if technicians = [] then
           ((0, map (\<lambda>req. (request_id req, ''No available technicians found''))
                  unassigned_requests), db)
         else
           let technician_workloads = init_workloads raises db now technicians []
           in case assign_requests raises now (sorted_requests unassigned_requests)
                     \<lparr>store = db, technician_workloads = technician_workloads,
                      assigned_count = 0, failed_assignments = []\<rparr> of
                Inl db' \<Rightarrow>
                  ((0, map (\<lambda>req. (request_id req,
                                    ''System error: min() arg is an empty sequence''))
                         unassigned_requests), db')
              | Inr s \<Rightarrow> ((assigned_count s, failed_assignments s), store s))"

subsection \<open>The spec's statements, for comparison with the code\<close>

text \<open>
  The eligibility rule of the Technician Directory as the spec states it: active, and of
  role \<^verbatim>\<open>super_admin\<close> for priority \<^verbatim>\<open>high\<close>, of either role otherwise.
\<close>

definition spec_eligible :: "string \<Rightarrow> user \<Rightarrow> bool" where
  "spec_eligible prio u \<longleftrightarrow>
     user_status u = ''active''
     \<and> (if prio = ''high'' then platform_role u = ''super_admin''
        else platform_role u = ''super_admin'' \<or> platform_role u = ''support_technician'')"





subsection \<open>Reading a batch run\<close>


definition total_pending :: "workloads \<Rightarrow> nat" where
  "total_pending d = sum_list (map (\<lambda>item. new_assignments (snd item)) d)"

text \<open>What a stretch of \<open>n\<close> loop passes from \<open>s\<close> to \<open>s'\<close> keeps: the keys of the
  dictionary, one pending count per assigned ticket, one outcome per ticket.\<close>

definition accounted :: "batch_state \<Rightarrow> batch_state \<Rightarrow> nat \<Rightarrow> bool" where
  "accounted s s' n \<longleftrightarrow>
     map fst (technician_workloads s') = map fst (technician_workloads s)
     \<and> total_pending (technician_workloads s') + assigned_count s
         = total_pending (technician_workloads s) + assigned_count s'
     \<and> assigned_count s' + length (failed_assignments s')
         = assigned_count s + length (failed_assignments s) + n"

subsection \<open>A small help desk for concrete runs\<close>

text \<open>
  Three users (a participant who files tickets, a super admin and a support technician,
  listed out of id order) and tickets filed by the participant.
\<close>

definition tech1 :: user where
  "tech1 = \<lparr>user_id = 1, platform_role = ''support_technician'', user_status = ''active''\<rparr>"

definition admin2 :: user where
  "admin2 = \<lparr>user_id = 2, platform_role = ''super_admin'', user_status = ''active''\<rparr>"

definition member3 :: user where
  "member3 = \<lparr>user_id = 3, platform_role = ''participant'', user_status = ''active''\<rparr>"

definition ticket :: "nat \<Rightarrow> string \<Rightarrow> string \<Rightarrow> nat option \<Rightarrow> help_request" where
  "ticket rid prio st a =
     \<lparr>request_id = rid, requester_id = 3, priority = prio, status = st, assigned_to = a,
      created_at = 0, updated_at = None, resolved_at = None\<rparr>"

definition desk :: "help_request list \<Rightarrow> database" where
  "desk ts = \<lparr>users = [member3, admin2, tech1], help_requests = ts\<rparr>"

text \<open>The spec's second scenario: technician 1 holds two urgent tickets assigned three
  hours before time 10800, technician 2 one low ticket blocked an hour before.\<close>

definition busy_desk :: database where
  "busy_desk = desk
     [(ticket 11 ''urgent'' ''assigned'' (Some 1))\<lparr>updated_at := Some 0\<rparr>,
      (ticket 12 ''low'' ''blocked'' (Some 2))\<lparr>created_at := 7200\<rparr>,
      (ticket 13 ''urgent'' ''assigned'' (Some 1))\<lparr>updated_at := Some 0\<rparr>,
      ticket 14 ''high'' ''new'' None,
      (ticket 15 ''urgent'' ''solved'' (Some 1))\<lparr>updated_at := Some 0\<rparr>]"

text \<open>A store whose two scorer queries raise for every technician.\<close>

definition scorer_down :: faults where
  "scorer_down q =
     (case q of Workload_Query tid \<Rightarrow> True | Count_Query tid \<Rightarrow> True | _ \<Rightarrow> False)"

text \<open>A batch run about to start with both technicians idle.\<close>

definition idle :: "user \<Rightarrow> nat \<times> tracking" where
  "idle tech = (user_id tech,
                \<lparr>technician = tech, current_workload = Finite 0, new_assignments = 0\<rparr>)"

definition fresh_batch :: "help_request list \<Rightarrow> batch_state" where
  "fresh_batch ts = \<lparr>store = desk ts, technician_workloads = [idle tech1, idle admin2],
                      assigned_count = 0, failed_assignments = []\<rparr>"

text \<open>The spec's fifth scenario, out of order: two urgent tickets, a medium and a low one.\<close>

definition backlog :: "help_request list" where
  "backlog = [(ticket 24 ''low'' ''new'' None)\<lparr>created_at := 4\<rparr>,
              (ticket 22 ''urgent'' ''new'' None)\<lparr>created_at := 2\<rparr>,
              (ticket 23 ''medium'' ''new'' None)\<lparr>created_at := 3\<rparr>,
              (ticket 21 ''urgent'' ''new'' None)\<lparr>created_at := 1\<rparr>]"

section \<open>Properties\<close>

lemmas desk_defs = desk_def ticket_def tech1_def admin2_def member3_def no_faults_def

lemmas update_defs = update_help_request_status_def request_info_def execute_update_def
  set_fields_def truthy_def validate_status_transition_def is_valid_status_transition_def
  get_valid_status_transitions_def status_transitions_def dict_get_def quoted_def

lemmas pool_defs = get_available_technicians_def desk_defs

lemmas scorer_defs = calculate_technician_workload_def active_load_def updated_at_desc_def
  request_weight_def dict_get_def PRIORITY_WEIGHTS_def STATUS_WEIGHTS_def

lemmas batch_defs = assign_one_def total_workload_def float_add_def less_pyfloat_def
  add_assignment_def fresh_batch_def idle_def

subsection \<open>Lifecycle\<close>

lemma validate_status_transition_message:
  "validate_status_transition c n = Some m \<Longrightarrow> m \<noteq> []"
  by (auto simp: validate_status_transition_def split: if_splits)

lemma truthy_validate:
  "truthy (validate_status_transition c n) \<longleftrightarrow> validate_status_transition c n \<noteq> None"
  by (auto simp: truthy_def dest: validate_status_transition_message split: option.splits)

lemma validate_from_solved:
  "new_status \<noteq> ''solved'' \<Longrightarrow> validate_status_transition ''solved'' new_status \<noteq> None"
  by (simp add: validate_status_transition_def is_valid_status_transition_def
      get_valid_status_transitions_def status_transitions_def dict_get_def)

lemma request_info_Some:
  "request_info db rid = Some info \<Longrightarrow> info \<in> set (help_requests db) \<and> request_id info = rid"
  by (auto simp: request_info_def find_Some_iff)

lemma set_fields_assigned_to [simp]: "assigned_to (set_fields now s a p t) = a"
  by (simp add: set_fields_def Let_def split: option.splits)

lemma set_fields_status [simp]: "status (set_fields now s a p t) = s"
  by (simp add: set_fields_def Let_def split: option.splits)

lemma set_fields_updated_at [simp]: "updated_at (set_fields now s a p t) = Some now"
  by (simp add: set_fields_def Let_def split: option.splits)

lemma set_fields_request_id [simp]: "request_id (set_fields now s a p t) = request_id t"
  by (simp add: set_fields_def Let_def split: option.splits)

lemma set_fields_resolved_at:
  "resolved_at (set_fields now s a p t) = (if s = ''resolved'' then Some now else resolved_at t)"
  by (simp add: set_fields_def Let_def split: option.splits)

lemma help_requests_execute_update:
  "help_requests (execute_update db rid f)
     = map (\<lambda>t. if request_id t = rid then f t else t) (help_requests db)"
  by (simp add: execute_update_def)

text \<open>A row after an \<^verbatim>\<open>UPDATE\<close> is a rewritten row with that id, or an untouched row
  with another id.\<close>

lemma updated_row_cases:
  assumes "t' \<in> set (help_requests (execute_update db rid f))"
  obtains t where "t \<in> set (help_requests db)" "request_id t = rid" "t' = f t"
        | "t' \<in> set (help_requests db)" "request_id t' \<noteq> rid"
  using assms unfolding help_requests_execute_update
  by (auto split: if_splits)

lemma update_success_store:
  assumes "update_help_request_status raises now db rid s a p b = (True, db')"
  shows "db' = execute_update db rid (set_fields now s a p)
         \<and> (\<exists>info. request_info db rid = Some info)"
  using assms
  by (auto simp: update_help_request_status_def Let_def split: if_splits option.splits)

lemma update_store_cases:
  "snd (update_help_request_status raises now db rid s a p b) = db
   \<or> snd (update_help_request_status raises now db rid s a p b)
       = execute_update db rid (set_fields now s a p)"
  by (simp add: update_help_request_status_def Let_def split: option.splits)

text \<open>Every accepted transition refreshes \<^verbatim>\<open>updated_at\<close>.\<close>

lemma update_refreshes_updated_at:
  assumes "update_help_request_status raises now db rid s a p b = (True, db')"
    and "t \<in> set (help_requests db')" "request_id t = rid"
  shows "updated_at t = Some now"
proof -
  from update_success_store [OF assms(1)]
  have db': "db' = execute_update db rid (set_fields now s a p)" by blast
  from assms(2) show ?thesis unfolding db'
  proof (cases rule: updated_row_cases)
    case (1 t0)
    then show ?thesis by simp
  next
    case 2
    with assms(3) show ?thesis by simp
  qed
qed

text \<open>An accepted transition writes \<^verbatim>\<open>resolved_at\<close> exactly when the target is the
  string \<^verbatim>\<open>'resolved'\<close>, which is not one of the four statuses.\<close>

lemma update_sets_resolved_at:
  assumes "update_help_request_status raises now db rid s a p b = (True, db')"
    and "t \<in> set (help_requests db')" "request_id t = rid"
  shows "\<exists>t0 \<in> set (help_requests db). request_id t0 = rid
           \<and> resolved_at t = (if s = ''resolved'' then Some now else resolved_at t0)"
proof -
  from update_success_store [OF assms(1)]
  have db': "db' = execute_update db rid (set_fields now s a p)" by blast
  from assms(2) show ?thesis unfolding db'
  proof (cases rule: updated_row_cases)
    case (1 t0)
    then show ?thesis by (auto simp: set_fields_resolved_at)
  next
    case 2
    with assms(3) show ?thesis by simp
  qed
qed

text \<open>A failure reported before the staff lookup leaves the store as found.\<close>

lemma failure_before_write_keeps_store:
  assumes "update_help_request_status raises now db rid s a p b = (False, db')"
    and "\<forall>x. a = Some x \<longrightarrow> \<not> raises (Staff_Query x)"
  shows "db' = db"
proof (cases "request_info db rid")
  case None
  with assms(1) show ?thesis
    by (simp add: update_help_request_status_def split: if_splits)
next
  case (Some info)
  with assms show ?thesis
    by (cases a) (simp_all add: update_help_request_status_def Let_def split: if_splits)
qed

text \<open>
  C2. Every successful transition refreshes \<^verbatim>\<open>updated_at\<close> and sets
  \<^verbatim>\<open>resolved_at\<close> exactly when the target status is \<^verbatim>\<open>solved\<close>. The code compares
  the target with \<^verbatim>\<open>'resolved'\<close>: an assigned ticket moved to \<^verbatim>\<open>solved\<close> at time 5 is
  accepted, its \<^verbatim>\<open>updated_at\<close> is 5 and its \<^verbatim>\<open>resolved_at\<close> is still \<^verbatim>\<open>NULL\<close>.
\<close>

theorem solved_target_leaves_resolved_at_unset:
  "update_help_request_status no_faults 5 (desk [ticket 10 ''medium'' ''assigned'' (Some 1)])
       10 ''solved'' (Some 1) None False
     = (True, desk [(ticket 10 ''medium'' ''solved'' (Some 1))\<lparr>updated_at := Some 5\<rparr>])
   \<and> resolved_at ((ticket 10 ''medium'' ''solved'' (Some 1))\<lparr>updated_at := Some 5\<rparr>) = None"
  by (simp add: update_defs desk_defs)

text \<open>
  C4, as stated: no transition operation, whatever its target and flags, changes the
  status or the assignee of a solved ticket. With \<^verbatim>\<open>bypass_validation=True\<close> the table
  is not consulted: a solved ticket assigned to technician 1 becomes \<^verbatim>\<open>new\<close> and
  unassigned.
\<close>

theorem solved_ticket_changed_by_bypass:
  "update_help_request_status no_faults 5 (desk [ticket 10 ''medium'' ''solved'' (Some 1)])
       10 ''new'' None None True
     = (True, desk [(ticket 10 ''medium'' ''new'' None)\<lparr>updated_at := Some 5\<rparr>])"
  by (simp add: update_defs desk_defs)

text \<open>
  C4, amended: without \<^verbatim>\<open>bypass_validation\<close>, a ticket whose status is \<^verbatim>\<open>solved\<close>
  keeps that status under every transition operation, and an operation whose target is
  not \<^verbatim>\<open>solved\<close> is rejected and leaves the whole store unchanged.
\<close>

theorem solved_is_terminal_without_bypass:
  assumes "\<forall>t \<in> set (help_requests db). request_id t = rid \<longrightarrow> status t = ''solved''"
  shows "(\<forall>t \<in> set (help_requests
              (snd (update_help_request_status raises now db rid new_status a p False))).
            request_id t = rid \<longrightarrow> status t = ''solved'')
       \<and> (new_status \<noteq> ''solved'' \<longrightarrow>
            update_help_request_status raises now db rid new_status a p False = (False, db))"
proof -
  let ?r = "update_help_request_status raises now db rid new_status a p False"
  have rejected: "?r = (False, db)" if "new_status \<noteq> ''solved''"
  proof (cases "request_info db rid")
    case None
    then show ?thesis by (simp add: update_help_request_status_def)
  next
    case (Some info)
    with assms request_info_Some [OF Some] have "status info = ''solved''" by blast
    with that Some show ?thesis
      by (simp add: update_help_request_status_def truthy_validate validate_from_solved)
  qed
  have kept: "status t = ''solved''"
    if row: "t \<in> set (help_requests (snd ?r))" and rid: "request_id t = rid" for t
  proof (cases "snd ?r = db")
    case True
    with row rid assms show ?thesis by simp
  next
    case False
    with update_store_cases [of raises now db rid new_status a p False]
    have written: "snd ?r = execute_update db rid (set_fields now new_status a p)" by blast
    from False rejected have "new_status = ''solved''" by fastforce
    from row show ?thesis unfolding written
    proof (cases rule: updated_row_cases)
      case (1 t0)
      with \<open>new_status = ''solved''\<close> show ?thesis by simp
    next
      case 2
      with rid show ?thesis by simp
    qed
  qed
  from rejected kept show ?thesis by blast
qed

theorem solved_is_terminal_without_bypass_witness:
  "map status (help_requests (desk [ticket 10 ''medium'' ''solved'' (Some 1)])) = [''solved'']
   \<and> update_help_request_status no_faults 5 (desk [ticket 10 ''medium'' ''solved'' (Some 1)])
       10 ''new'' None None False
     = (False, desk [ticket 10 ''medium'' ''solved'' (Some 1)])
   \<and> map status (help_requests (snd (update_help_request_status no_faults 5
        (desk [ticket 10 ''medium'' ''solved'' (Some 1)]) 10 ''solved'' None None False)))
     = [''solved'']"
proof -
  have h: "\<forall>t \<in> set (help_requests (desk [ticket 10 ''medium'' ''solved'' (Some 1)])).
             request_id t = 10 \<longrightarrow> status t = ''solved''"
    by (simp add: desk_defs)
  from solved_is_terminal_without_bypass
    [OF h, where new_status = "''new''" and raises = no_faults and now = 5 and a = None and p = None]
  have "update_help_request_status no_faults 5 (desk [ticket 10 ''medium'' ''solved'' (Some 1)])
       10 ''new'' None None False
     = (False, desk [ticket 10 ''medium'' ''solved'' (Some 1)])"
    by simp
  moreover have "map status (help_requests (snd (update_help_request_status no_faults 5
        (desk [ticket 10 ''medium'' ''solved'' (Some 1)]) 10 ''solved'' None None False)))
     = [''solved'']"
    by (simp add: update_defs desk_defs)
  ultimately show ?thesis
    by (simp add: desk_defs)
qed

text \<open>
  The same-state request on a solved ticket is accepted and applied like any other
  transition: it keeps the status and rewrites the assignee from its argument.
\<close>

lemma solved_same_state_rewrites_assignee:
  "update_help_request_status no_faults 5 (desk [ticket 10 ''medium'' ''solved'' (Some 1)])
       10 ''solved'' None None False
     = (True, desk [(ticket 10 ''medium'' ''solved'' None)\<lparr>updated_at := Some 5\<rparr>])"
  by (simp add: update_defs desk_defs)

text \<open>
  C5. An operation that returns \<^verbatim>\<open>False\<close> leaves the stored ticket as it was. When the
  staff lookup that follows the \<^verbatim>\<open>UPDATE\<close> raises, the operation returns \<^verbatim>\<open>False\<close>
  and the ticket, \<^verbatim>\<open>new\<close> and unassigned before, is stored as \<^verbatim>\<open>assigned\<close> to
  technician 1 with \<^verbatim>\<open>updated_at\<close> 5.
\<close>

theorem failure_reported_after_write:
  "update_help_request_status (\<lambda>q. q = Staff_Query 1) 5 (desk [ticket 10 ''medium'' ''new'' None])
       10 ''assigned'' (Some 1) None False
     = (False, desk [(ticket 10 ''medium'' ''assigned'' (Some 1))\<lparr>updated_at := Some 5\<rparr>])"
  by (simp add: update_defs desk_defs)

text \<open>
  C10. A successful transition made with no \<^verbatim>\<open>assigned_to\<close> argument stores
  \<^verbatim>\<open>assigned_to = NULL\<close> on the ticket, whatever the target status and whoever held the
  ticket before.
\<close>

theorem omitted_assignee_clears_assignment:
  assumes "update_help_request_status raises now db rid new_status None new_priority bypass
             = (True, db')"
  shows "(\<exists>t \<in> set (help_requests db'). request_id t = rid)
       \<and> (\<forall>t \<in> set (help_requests db'). request_id t = rid \<longrightarrow> assigned_to t = None)"
proof -
  let ?f = "set_fields now new_status None new_priority"
  from update_success_store [OF assms] obtain info where
    db': "db' = execute_update db rid ?f"
    and info: "request_info db rid = Some info"
    by blast
  from request_info_Some [OF info] have mem: "info \<in> set (help_requests db)"
    and rid: "request_id info = rid"
    by simp_all
  have "?f info \<in> set (help_requests db')"
    unfolding db' help_requests_execute_update using mem rid by force
  moreover have "request_id (?f info) = rid"
    using rid by simp
  ultimately have ex: "\<exists>t \<in> set (help_requests db'). request_id t = rid"
    by (rule bexI [rotated])
  have all: "assigned_to t = None" if "t \<in> set (help_requests db')" "request_id t = rid" for t
    using that(1) unfolding db'
  proof (cases rule: updated_row_cases)
    case (1 t0)
    then show ?thesis by simp
  next
    case 2
    with that(2) show ?thesis by simp
  qed
  from ex all show ?thesis by blast
qed

theorem omitted_assignee_clears_assignment_witness:
  "update_help_request_status no_faults 5 (desk [ticket 10 ''medium'' ''assigned'' (Some 1)])
       10 ''blocked'' None None False
     = (True, desk [(ticket 10 ''medium'' ''blocked'' None)\<lparr>updated_at := Some 5\<rparr>])
   \<and> map assigned_to
        (help_requests (desk [(ticket 10 ''medium'' ''blocked'' None)\<lparr>updated_at := Some 5\<rparr>]))
     = [None]"
proof -
  have h: "update_help_request_status no_faults 5 (desk [ticket 10 ''medium'' ''assigned'' (Some 1)])
       10 ''blocked'' None None False
     = (True, desk [(ticket 10 ''medium'' ''blocked'' None)\<lparr>updated_at := Some 5\<rparr>])"
    by (simp add: update_defs desk_defs)
  from omitted_assignee_clears_assignment [OF h] show ?thesis
    using h by (simp add: desk_defs)
qed

subsection \<open>Technician directory\<close>

lemma get_available_technicians_eligible:
  "get_available_technicians raises db prio
     = (if raises Technicians_Query then []
        else sort_key user_id (filter (spec_eligible prio) (users db)))"
proof -
  have "(\<lambda>u. platform_role u = ''super_admin'' \<and> user_status u = ''active'') = spec_eligible ''high''"
    by (auto simp: spec_eligible_def)
  moreover have "(\<lambda>u. platform_role u \<in> set [''super_admin'', ''support_technician'']
                       \<and> user_status u = ''active'') = spec_eligible prio" if "prio \<noteq> ''high''"
    using that by (auto simp: spec_eligible_def)
  ultimately show ?thesis
    by (simp add: get_available_technicians_def)
qed

text \<open>
  C8. For every priority the pool holds only active technicians of the store, in
  ascending id order: super admins only for \<^verbatim>\<open>high\<close>, super admins and support
  technicians otherwise. When the query succeeds it holds every such technician; when
  none matches, or when the query raises, it is the empty list.
\<close>

theorem eligible_pool_contents:
  "sorted (map user_id (get_available_technicians raises db prio))
   \<and> (\<forall>u \<in> set (get_available_technicians raises db prio).
         u \<in> set (users db) \<and> spec_eligible prio u)
   \<and> (\<not> raises Technicians_Query \<longrightarrow>
         mset (get_available_technicians raises db prio)
           = filter_mset (spec_eligible prio) (mset (users db)))
   \<and> (raises Technicians_Query \<longrightarrow> get_available_technicians raises db prio = [])
   \<and> ((\<forall>u \<in> set (users db). \<not> spec_eligible prio u) \<longrightarrow>
         get_available_technicians raises db prio = [])"
proof -
  let ?pool = "get_available_technicians raises db prio"
  have ordered: "sorted (map user_id ?pool)"
    by (simp add: get_available_technicians_eligible)
  have sound: "u \<in> set (users db) \<and> spec_eligible prio u" if "u \<in> set ?pool" for u
    using that by (simp add: get_available_technicians_eligible split: if_splits)
  have complete: "mset ?pool = filter_mset (spec_eligible prio) (mset (users db))"
    if "\<not> raises Technicians_Query"
    using that by (simp add: get_available_technicians_eligible)
  have down: "?pool = []" if "raises Technicians_Query"
    using that by (simp add: get_available_technicians_eligible)
  have none: "?pool = []" if "\<forall>u \<in> set (users db). \<not> spec_eligible prio u"
  proof -
    have "u \<notin> set ?pool" for u
      using that sound [of u] by blast
    then show ?thesis by (cases ?pool) auto
  qed
  from ordered sound complete down none show ?thesis by blast
qed

theorem eligible_pool_contents_witness:
  "get_available_technicians no_faults (desk []) ''high'' = [admin2]
   \<and> get_available_technicians no_faults (desk []) ''urgent'' = [tech1, admin2]
   \<and> map user_id (get_available_technicians no_faults (desk []) ''urgent'') = [1, 2]
   \<and> spec_eligible ''high'' admin2 \<and> \<not> spec_eligible ''high'' tech1 \<and> spec_eligible ''urgent'' tech1
   \<and> \<not> spec_eligible ''urgent'' member3
   \<and> get_available_technicians (\<lambda>q. True) (desk []) ''urgent'' = []
   \<and> get_available_technicians no_faults \<lparr>users = [member3], help_requests = []\<rparr> ''low'' = []"
proof -
  have "get_available_technicians (\<lambda>q. True) (desk []) ''urgent'' = []"
    using eligible_pool_contents [of "\<lambda>q. True" "desk []" "''urgent''"] by blast
  moreover have "get_available_technicians no_faults \<lparr>users = [member3], help_requests = []\<rparr> ''low'' = []"
    using eligible_pool_contents [of no_faults "\<lparr>users = [member3], help_requests = []\<rparr>" "''low''"]
    by (simp add: spec_eligible_def member3_def)
  ultimately show ?thesis
    by (simp add: pool_defs spec_eligible_def)
qed

subsection \<open>Workload scorer\<close>











text \<open>The other technician of that scenario, computed by the code itself.\<close>

lemma blocked_low_ticket_score:
  "calculate_technician_workload no_faults busy_desk 10800 2 = Finite (11 / 20)"
  by (simp add: scorer_defs busy_desk_def desk_defs)

text \<open>
  C3, as stated: a store read error in a scorer reaches the caller as an error and not as
  a numeric score. With the store down for technician 1, both scorers return a number:
  \<^verbatim>\<open>float('inf')\<close> and 999.
\<close>

theorem scorer_failure_returns_a_score:
  "scorer_down (Workload_Query 1) \<and> scorer_down (Count_Query 1)
   \<and> calculate_technician_workload scorer_down busy_desk 10800 1 = PosInf
   \<and> get_technician_current_workload scorer_down busy_desk 1 = 999"
  by (simp add: calculate_technician_workload_def get_technician_current_workload_def
      scorer_down_def)

text \<open>
  C3, amended: a store read error in a scorer is returned to the caller as a sentinel
  score, \<^verbatim>\<open>float('inf')\<close> by the weighted scorer and 999 by the counting one; it is
  never reported as zero load, and the weighted sentinel is never less than another score.
\<close>

theorem scorer_failure_sentinel:
  "(raises (Workload_Query tid) \<longrightarrow>
      calculate_technician_workload raises db now tid = PosInf
      \<and> calculate_technician_workload raises db now tid \<noteq> Finite 0
      \<and> (\<forall>w. \<not> calculate_technician_workload raises db now tid < w))
   \<and> (raises (Count_Query tid) \<longrightarrow>
        get_technician_current_workload raises db tid = 999
        \<and> get_technician_current_workload raises db tid \<noteq> 0)"
  by (simp add: calculate_technician_workload_def get_technician_current_workload_def
      less_pyfloat_def)

theorem scorer_failure_sentinel_witness:
  "scorer_down (Workload_Query 2) \<and> scorer_down (Count_Query 2)
   \<and> calculate_technician_workload scorer_down busy_desk 10800 2 = PosInf
   \<and> get_technician_current_workload scorer_down busy_desk 2 = 999"
proof -
  have h: "scorer_down (Workload_Query 2)" "scorer_down (Count_Query 2)"
    by (simp_all add: scorer_down_def)
  from scorer_failure_sentinel [of scorer_down 2 busy_desk 10800] h
  show ?thesis by blast
qed

subsection \<open>Single-ticket assigner\<close>

lemma least_busy_loop_cases:
  assumes "least_busy_loop raises db now ts (b, l) = (b', l')"
  shows "(b' = b \<and> l' = l
          \<and> (\<forall>u \<in> set ts. \<not> calculate_technician_workload raises db now (user_id u) < l))
       \<or> (\<exists>pre t post. ts = pre @ t # post \<and> b' = Some t
            \<and> l' = calculate_technician_workload raises db now (user_id t) \<and> l' < l
            \<and> (\<forall>u \<in> set pre. l' < calculate_technician_workload raises db now (user_id u))
            \<and> (\<forall>u \<in> set post. l' \<le> calculate_technician_workload raises db now (user_id u)))"
  using assms
proof (induction ts arbitrary: b l)
  case Nil
  then show ?case by simp
next
  case (Cons x xs)
  let ?sc = "\<lambda>u. calculate_technician_workload raises db now (user_id u)"
  show ?case
  proof (cases "?sc x < l")
    case True
    with Cons.prems have run: "least_busy_loop raises db now xs (Some x, ?sc x) = (b', l')"
      by (simp add: Let_def)
    from Cons.IH [OF run] show ?thesis
    proof (elim disjE conjE exE)
      assume "b' = Some x" "l' = ?sc x" "\<forall>u \<in> set xs. \<not> ?sc u < ?sc x"
      with True have "x # xs = [] @ x # xs \<and> b' = Some x \<and> l' = ?sc x \<and> l' < l
          \<and> (\<forall>u \<in> set []. l' < ?sc u) \<and> (\<forall>u \<in> set xs. l' \<le> ?sc u)"
        by (auto simp: not_less)
      then show ?thesis by blast
    next
      fix pre t post
      assume "xs = pre @ t # post" "b' = Some t" "l' = ?sc t" "l' < ?sc x"
        "\<forall>u \<in> set pre. l' < ?sc u" "\<forall>u \<in> set post. l' \<le> ?sc u"
      with True have "x # xs = (x # pre) @ t # post \<and> b' = Some t \<and> l' = ?sc t \<and> l' < l
          \<and> (\<forall>u \<in> set (x # pre). l' < ?sc u) \<and> (\<forall>u \<in> set post. l' \<le> ?sc u)"
        by auto
      then show ?thesis by blast
    qed
  next
    case False
    with Cons.prems have run: "least_busy_loop raises db now xs (b, l) = (b', l')"
      by (simp add: Let_def)
    from Cons.IH [OF run] show ?thesis
    proof (elim disjE conjE exE)
      assume "b' = b" "l' = l" "\<forall>u \<in> set xs. \<not> ?sc u < l"
      with False show ?thesis by auto
    next
      fix pre t post
      assume "xs = pre @ t # post" "b' = Some t" "l' = ?sc t" "l' < l"
        "\<forall>u \<in> set pre. l' < ?sc u" "\<forall>u \<in> set post. l' \<le> ?sc u"
      with False have "x # xs = (x # pre) @ t # post \<and> b' = Some t \<and> l' = ?sc t \<and> l' < l
          \<and> (\<forall>u \<in> set (x # pre). l' < ?sc u) \<and> (\<forall>u \<in> set post. l' \<le> ?sc u)"
        by auto
      then show ?thesis by blast
    qed
  qed
qed

text \<open>When nobody is selected, every scorer call of the run has failed.\<close>

lemma least_busy_none:
  assumes "least_busy_loop raises db now ts (None, PosInf) = (None, l')"
    and "u \<in> set ts"
  shows "calculate_technician_workload raises db now (user_id u) = PosInf"
proof -
  from least_busy_loop_cases [OF assms(1)] assms(2)
  have "\<not> calculate_technician_workload raises db now (user_id u) < PosInf" by auto
  then show ?thesis
    by (cases "calculate_technician_workload raises db now (user_id u)")
      (simp_all add: less_pyfloat_def)
qed

text \<open>
  C6. Of two technicians of the eligible pool with equal workload score, the
  Single-Ticket Assigner selects the one with the lower id: the technician it selects has
  the least score of the pool and, among those with that score, the least id. It selects
  nobody only when every score of the pool is \<^verbatim>\<open>float('inf')\<close>.
\<close>

theorem least_busy_tie_break:
  assumes pool: "u \<in> set (get_available_technicians raises db prio)"
  shows "(fst (find_least_busy_technician raises db now prio) = None \<longrightarrow>
            calculate_technician_workload raises db now (user_id u) = PosInf)
       \<and> (\<forall>t. fst (find_least_busy_technician raises db now prio) = Some t \<longrightarrow>
            t \<in> set (get_available_technicians raises db prio)
            \<and> snd (find_least_busy_technician raises db now prio)
                = Some (calculate_technician_workload raises db now (user_id t))
            \<and> calculate_technician_workload raises db now (user_id t)
                \<le> calculate_technician_workload raises db now (user_id u)
            \<and> (calculate_technician_workload raises db now (user_id u)
                  = calculate_technician_workload raises db now (user_id t)
                \<longrightarrow> user_id t \<le> user_id u))"
proof -
  let ?sc = "\<lambda>u. calculate_technician_workload raises db now (user_id u)"
  let ?pool = "get_available_technicians raises db prio"
  obtain b l where run: "least_busy_loop raises db now ?pool (None, PosInf) = (b, l)"
    by (cases "least_busy_loop raises db now ?pool (None, PosInf)")
  from pool have "?pool \<noteq> []" by auto
  with run have result: "find_least_busy_technician raises db now prio = (b, Some l)"
    by (simp add: find_least_busy_technician_def Let_def)
  have none: "?sc u = PosInf" if "b = None"
    using least_busy_none [OF run [unfolded that] pool] .
  have some: "t \<in> set ?pool \<and> l = ?sc t \<and> ?sc t \<le> ?sc u
      \<and> (?sc u = ?sc t \<longrightarrow> user_id t \<le> user_id u)" if "b = Some t" for t
  proof -
    from least_busy_loop_cases [OF run [unfolded that]] obtain pre post where
      split: "?pool = pre @ t # post" and l: "l = ?sc t"
      and before: "\<forall>v \<in> set pre. l < ?sc v" and after: "\<forall>v \<in> set post. l \<le> ?sc v"
      by auto
    have ordered: "sorted (map user_id ?pool)"
      by (simp add: get_available_technicians_def)
    from pool split have where_u: "u \<in> set pre \<or> u = t \<or> u \<in> set post" by auto
    have least: "?sc t \<le> ?sc u"
      using where_u before after l by auto
    have tie: "user_id t \<le> user_id u" if "?sc u = ?sc t"
    proof -
      from that before l have "u \<notin> set pre" by auto
      with where_u have "u = t \<or> u \<in> set post" by blast
      moreover from ordered split have "\<forall>v \<in> set post. user_id t \<le> user_id v"
        by (simp add: sorted_append)
      ultimately show ?thesis by auto
    qed
    from split l least tie show ?thesis by auto
  qed
  from none some show ?thesis
    unfolding result by simp
qed

theorem least_busy_tie_break_witness:
  "admin2 \<in> set (get_available_technicians no_faults (desk []) ''medium'')
   \<and> find_least_busy_technician no_faults (desk []) 0 ''medium'' = (Some tech1, Some (Finite 0))
   \<and> get_available_technicians no_faults (desk []) ''medium'' = [tech1, admin2]
   \<and> calculate_technician_workload no_faults (desk []) 0 (user_id admin2)
       = calculate_technician_workload no_faults (desk []) 0 (user_id tech1)
   \<and> user_id tech1 \<le> user_id admin2"
proof -
  have found: "find_least_busy_technician no_faults (desk []) 0 ''medium''
                 = (Some tech1, Some (Finite 0))"
    by (simp add: find_least_busy_technician_def pool_defs calculate_technician_workload_def
        active_load_def less_pyfloat_def)
  have pool: "get_available_technicians no_faults (desk []) ''medium'' = [tech1, admin2]"
    by (simp add: pool_defs)
  then have mem: "admin2 \<in> set (get_available_technicians no_faults (desk []) ''medium'')"
    by simp
  have tie: "calculate_technician_workload no_faults (desk []) 0 (user_id admin2)
       = calculate_technician_workload no_faults (desk []) 0 (user_id tech1)"
    by (simp add: calculate_technician_workload_def active_load_def desk_defs)
  from least_busy_tie_break [OF mem, of 0] found tie have "user_id tech1 \<le> user_id admin2"
    by simp
  with mem found pool tie show ?thesis by blast
qed

lemma none_selected_when_scorers_down:
  "find_least_busy_technician scorer_down (desk []) 0 ''medium'' = (None, Some PosInf)"
  by (simp add: find_least_busy_technician_def get_available_technicians_def
      calculate_technician_workload_def less_pyfloat_def desk_defs scorer_down_def)

subsection \<open>Batch distributor\<close>

lemma min_loop_cases:
  "(min_loop key xs best = best \<and> (\<forall>x \<in> set xs. \<not> key x < key best))
   \<or> (\<exists>pre post. xs = pre @ min_loop key xs best # post
         \<and> key (min_loop key xs best) < key best
         \<and> (\<forall>x \<in> set pre. key (min_loop key xs best) < key x)
         \<and> (\<forall>x \<in> set post. key (min_loop key xs best) \<le> key x))"
proof (induction xs arbitrary: best)
  case Nil
  then show ?case by simp
next
  case (Cons x xs)
  show ?case
  proof (cases "key x < key best")
    case True
    let ?r = "min_loop key xs x"
    from True have r: "min_loop key (x # xs) best = ?r" by simp
    from Cons.IH [of x] show ?thesis
    proof (elim disjE conjE exE)
      assume "?r = x" "\<forall>y \<in> set xs. \<not> key y < key x"
      with True have "x # xs = [] @ ?r # xs \<and> key ?r < key best
          \<and> (\<forall>y \<in> set []. key ?r < key y) \<and> (\<forall>y \<in> set xs. key ?r \<le> key y)"
        by (auto simp: not_less)
      then show ?thesis unfolding r by blast
    next
      fix pre post
      assume "xs = pre @ ?r # post" "key ?r < key x"
        "\<forall>y \<in> set pre. key ?r < key y" "\<forall>y \<in> set post. key ?r \<le> key y"
      with True have "x # xs = (x # pre) @ ?r # post \<and> key ?r < key best
          \<and> (\<forall>y \<in> set (x # pre). key ?r < key y) \<and> (\<forall>y \<in> set post. key ?r \<le> key y)"
        by auto
      then show ?thesis unfolding r by blast
    qed
  next
    case False
    let ?r = "min_loop key xs best"
    from False have r: "min_loop key (x # xs) best = ?r" by simp
    from Cons.IH [of best] show ?thesis
    proof (elim disjE conjE exE)
      assume "?r = best" "\<forall>y \<in> set xs. \<not> key y < key best"
      with False show ?thesis unfolding r by auto
    next
      fix pre post
      assume "xs = pre @ ?r # post" "key ?r < key best"
        "\<forall>y \<in> set pre. key ?r < key y" "\<forall>y \<in> set post. key ?r \<le> key y"
      with False have "x # xs = (x # pre) @ ?r # post \<and> key ?r < key best
          \<and> (\<forall>y \<in> set (x # pre). key ?r < key y) \<and> (\<forall>y \<in> set post. key ?r \<le> key y)"
        by auto
      then show ?thesis unfolding r by blast
    qed
  qed
qed

text \<open>The item \<^verbatim>\<open>min\<close> returns is the first one with the least key.\<close>

lemma min_loop_first_least:
  "\<exists>pre post. first # others = pre @ min_loop key others first # post
     \<and> (\<forall>x \<in> set pre. key (min_loop key others first) < key x)
     \<and> (\<forall>x \<in> set post. key (min_loop key others first) \<le> key x)"
proof -
  let ?r = "min_loop key others first"
  from min_loop_cases [of key others first] show ?thesis
  proof (elim disjE conjE exE)
    assume "?r = first" "\<forall>x \<in> set others. \<not> key x < key first"
    then have "first # others = [] @ ?r # others
        \<and> (\<forall>x \<in> set []. key ?r < key x) \<and> (\<forall>x \<in> set others. key ?r \<le> key x)"
      by (auto simp: not_less)
    then show ?thesis by blast
  next
    fix pre post
    assume "others = pre @ ?r # post" "key ?r < key first"
      "\<forall>x \<in> set pre. key ?r < key x" "\<forall>x \<in> set post. key ?r \<le> key x"
    then have "first # others = (first # pre) @ ?r # post
        \<and> (\<forall>x \<in> set (first # pre). key ?r < key x) \<and> (\<forall>x \<in> set post. key ?r \<le> key x)"
      by auto
    then show ?thesis by blast
  qed
qed





lemma assign_one_skipped:
  assumes "technician_workloads s = first # others"
    and "priority request = ''high''
         \<and> platform_role (technician (snd (min_loop total_workload others first))) \<noteq> ''super_admin''"
  shows "assign_one raises now request s
       = Inr (s\<lparr>failed_assignments := failed_assignments s @
                  [(request_id request, ''No super admin available for high priority request'')]\<rparr>)"
  using assms by (simp add: assign_one_def Let_def)

lemma assign_one_attempted:
  assumes "technician_workloads s = first # others"
    and "\<not> (priority request = ''high''
         \<and> platform_role (technician (snd (min_loop total_workload others first))) \<noteq> ''super_admin'')"
    and "update_help_request_status raises now (store s) (request_id request) ''assigned''
           (Some (fst (min_loop total_workload others first))) (Some (priority request)) False
         = (ok, db')"
  shows "assign_one raises now request s
       = (if ok then
            Inr (s\<lparr>store := db', assigned_count := assigned_count s + 1,
                   technician_workloads :=
                     add_assignment (fst (min_loop total_workload others first))
                       (technician_workloads s)\<rparr>)
          else
            Inr (s\<lparr>store := db',
                   failed_assignments := failed_assignments s @
                     [(request_id request, ''Failed to update request status'')]\<rparr>))"
proof (cases "priority request = ''high''")
  case True
  with assms(2) have "platform_role (technician (snd (min_loop total_workload others first)))
      = ''super_admin''" by simp
  with assms(1,3) show ?thesis by (simp add: assign_one_def Let_def)
next
  case False
  with assms(1,3) show ?thesis by (simp add: assign_one_def Let_def)
qed




text \<open>
  C1. A \<^verbatim>\<open>high\<close> ticket is matched against the super admins only, and fails for lack
  of a super admin only when there is none. The code picks the least loaded technician of
  the whole pool first and checks the role afterwards: with an idle support technician 1
  and an idle super admin 2, the tie goes to technician 1 and the ticket is recorded as
  failed, although super admin 2 is active and eligible.
\<close>

theorem high_ticket_fails_beside_super_admin:
  "admin2 \<in> set (get_available_technicians no_faults (desk [ticket 10 ''high'' ''new'' None])
                    ''high'')
   \<and> bulk_auto_assign_balanced no_faults (desk [ticket 10 ''high'' ''new'' None]) 5
        [ticket 10 ''high'' ''new'' None]
     = ((0, [(10, ''No super admin available for high priority request'')]),
        desk [ticket 10 ''high'' ''new'' None])"
  by (simp add: bulk_auto_assign_balanced_def get_available_technicians_def
      calculate_technician_workload_def active_load_def sorted_requests_def batch_defs desk_defs)

subsection \<open>Whole runs\<close>

lemma dict_set_keys:
  "map fst (dict_set k v d) = (if k \<in> set (map fst d) then map fst d else map fst d @ [k])"
proof (induction d)
  case Nil
  then show ?case by simp
next
  case (Cons item d)
  obtain k' v' where item: "item = (k', v')" by (cases item)
  show ?case
  proof (cases "k' = k")
    case True
    then show ?thesis by (simp add: item)
  next
    case False
    with Cons.IH show ?thesis by (simp add: item)
  qed
qed

lemma dict_set_distinct: "distinct (map fst d) \<Longrightarrow> distinct (map fst (dict_set k v d))"
  by (simp add: dict_set_keys)

lemma dict_set_values:
  "item \<in> set (dict_set k v d) \<Longrightarrow> item \<in> set d \<or> item = (k, v)"
  by (induction d) (auto split: if_splits)

lemma dict_set_not_empty: "dict_set k v d \<noteq> []"
  by (cases d) (auto split: if_splits)

lemma init_workloads_distinct:
  "distinct (map fst d) \<Longrightarrow> distinct (map fst (init_workloads raises db now techs d))"
  by (induction techs arbitrary: d) (simp_all add: dict_set_distinct)

lemma init_workloads_sorted:
  assumes "sorted (map user_id techs)" and "sorted (map fst d)"
    and "\<forall>k \<in> set (map fst d). \<forall>t \<in> set techs. k \<le> user_id t"
  shows "sorted (map fst (init_workloads raises db now techs d))"
  using assms
proof (induction techs arbitrary: d)
  case Nil
  then show ?case by simp
next
  case (Cons tech techs)
  let ?v = "\<lparr>technician = tech,
              current_workload = calculate_technician_workload raises db now (user_id tech),
              new_assignments = 0\<rparr>"
  let ?d = "dict_set (user_id tech) ?v d"
  from Cons.prems(1) have techs: "sorted (map user_id techs)"
    and later: "\<forall>t \<in> set techs. user_id tech \<le> user_id t"
    by simp_all
  have keys: "set (map fst ?d) = insert (user_id tech) (set (map fst d))"
    by (auto simp: dict_set_keys)
  have ordered: "sorted (map fst ?d)"
    using Cons.prems(2,3) by (simp add: dict_set_keys sorted_append)
  have bound: "\<forall>k \<in> set (map fst ?d). \<forall>t \<in> set techs. k \<le> user_id t"
    unfolding keys using Cons.prems(3) later by auto
  from Cons.IH [OF techs ordered bound] show ?case by simp
qed

text \<open>The dictionary of a batch run enumerates the technicians by ascending id.\<close>

lemma bulk_enumeration_by_id:
  "sorted (map fst (init_workloads raises db now (get_available_technicians raises db prio) []))
   \<and> distinct (map fst (init_workloads raises db now (get_available_technicians raises db prio) []))"
proof -
  have "sorted (map user_id (get_available_technicians raises db prio))"
    by (simp add: get_available_technicians_def)
  then show ?thesis
    by (simp add: init_workloads_sorted init_workloads_distinct)
qed

lemma init_workloads_not_empty:
  "techs \<noteq> [] \<or> d \<noteq> [] \<Longrightarrow> init_workloads raises db now techs d \<noteq> []"
  by (induction techs arbitrary: d) (simp_all add: dict_set_not_empty)

lemma init_workloads_idle:
  "\<forall>item \<in> set d. new_assignments (snd item) = 0
   \<Longrightarrow> \<forall>item \<in> set (init_workloads raises db now techs d). new_assignments (snd item) = 0"
proof (induction techs arbitrary: d)
  case Nil
  then show ?case by simp
next
  case (Cons tech techs)
  let ?d = "dict_set (user_id tech)
              \<lparr>technician = tech,
               current_workload = calculate_technician_workload raises db now (user_id tech),
               new_assignments = 0\<rparr> d"
  from Cons.prems have "\<forall>item \<in> set ?d. new_assignments (snd item) = 0"
    by (auto dest: dict_set_values)
  from Cons.IH [OF this] show ?case by simp
qed

lemma total_pending_idle:
  "\<forall>item \<in> set d. new_assignments (snd item) = 0 \<Longrightarrow> total_pending d = 0"
  by (induction d) (simp_all add: total_pending_def)

lemma total_pending_untouched:
  "tid \<notin> fst ` set d \<Longrightarrow> total_pending (add_assignment tid d) = total_pending d"
  by (induction d) (auto simp: total_pending_def add_assignment_def)

lemma total_pending_add_assignment:
  "distinct (map fst d) \<Longrightarrow> tid \<in> fst ` set d
   \<Longrightarrow> total_pending (add_assignment tid d) = total_pending d + 1"
proof (induction d)
  case Nil
  then show ?case by simp
next
  case (Cons item d)
  show ?case
  proof (cases "fst item = tid")
    case True
    with Cons.prems have "tid \<notin> fst ` set d" by auto
    from total_pending_untouched [OF this] True show ?thesis
      by (simp add: total_pending_def add_assignment_def)
  next
    case False
    with Cons.prems have "distinct (map fst d)" "tid \<in> fst ` set d" by auto
    from Cons.IH [OF this] False show ?thesis
      by (simp add: total_pending_def add_assignment_def)
  qed
qed

lemma add_assignment_keys: "map fst (add_assignment tid d) = map fst d"
  by (simp add: add_assignment_def)

lemma assign_one_accounted:
  assumes ne: "technician_workloads s \<noteq> []"
    and dist: "distinct (map fst (technician_workloads s))"
  shows "\<exists>s'. assign_one raises now request s = Inr s' \<and> accounted s s' 1"
proof -
  from ne obtain first others where tw: "technician_workloads s = first # others"
    by (cases "technician_workloads s") auto
  let ?best = "min_loop total_workload others first"
  from min_loop_first_least [of first others total_workload] tw
  have key: "fst ?best \<in> fst ` set (technician_workloads s)" by force
  show ?thesis
  proof (cases "priority request = ''high''
         \<and> platform_role (technician (snd ?best)) \<noteq> ''super_admin''")
    case True
    from assign_one_skipped [OF tw True] show ?thesis
      by (simp add: accounted_def)
  next
    case False
    obtain ok db' where upd:
      "update_help_request_status raises now (store s) (request_id request) ''assigned''
         (Some (fst ?best)) (Some (priority request)) False = (ok, db')"
      by (cases "update_help_request_status raises now (store s) (request_id request)
         ''assigned'' (Some (fst ?best)) (Some (priority request)) False")
    from assign_one_attempted [OF tw False upd]
      total_pending_add_assignment [OF dist key]
    show ?thesis
      by (cases ok) (simp_all add: accounted_def add_assignment_keys)
  qed
qed

lemma assign_requests_accounted:
  assumes "technician_workloads s \<noteq> []" and "distinct (map fst (technician_workloads s))"
  shows "\<exists>s'. assign_requests raises now reqs s = Inr s' \<and> accounted s s' (length reqs)"
  using assms
proof (induction reqs arbitrary: s)
  case Nil
  then show ?case by (simp add: accounted_def)
next
  case (Cons request rest)
  from assign_one_accounted [OF Cons.prems] obtain s1 where
    one: "assign_one raises now request s = Inr s1" and acc1: "accounted s s1 1"
    by blast
  from acc1 Cons.prems have "technician_workloads s1 \<noteq> []"
    "distinct (map fst (technician_workloads s1))"
    by (auto simp: accounted_def)
  from Cons.IH [OF this] obtain s' where
    run: "assign_requests raises now rest s1 = Inr s'" and acc: "accounted s1 s' (length rest)"
    by blast
  from acc1 acc have "accounted s s' (length (request # rest))"
    by (simp add: accounted_def)
  with one run show ?case by simp
qed

text \<open>Every ticket of the backlog is counted once, as assigned or as failed; the
  \<^verbatim>\<open>System error\<close> answer of the outer \<^verbatim>\<open>except\<close> never occurs.\<close>

lemma bulk_accounts_for_every_request:
  "fst (fst (bulk_auto_assign_balanced raises db now reqs))
     + length (snd (fst (bulk_auto_assign_balanced raises db now reqs)))
   = length reqs"
proof (cases "get_available_technicians raises db ''medium'' = []")
  case True
  then show ?thesis by (simp add: bulk_auto_assign_balanced_def)
next
  case False
  let ?s = "\<lparr>store = db,
             technician_workloads =
               init_workloads raises db now (get_available_technicians raises db ''medium'') [],
             assigned_count = 0, failed_assignments = []\<rparr>"
  have "technician_workloads ?s \<noteq> []" "distinct (map fst (technician_workloads ?s))"
    using False by (simp_all add: init_workloads_not_empty init_workloads_distinct)
  from assign_requests_accounted [OF this, of raises now "sorted_requests reqs"]
  obtain s' where run: "assign_requests raises now (sorted_requests reqs) ?s = Inr s'"
    and acc: "accounted ?s s' (length (sorted_requests reqs))"
    by blast
  from acc have "assigned_count s' + length (failed_assignments s') = length reqs"
    by (simp add: accounted_def sorted_requests_def)
  with False run show ?thesis
    by (simp add: bulk_auto_assign_balanced_def Let_def)
qed


text \<open>Concrete runs: a technician whose load could not be read still receives a ticket,
  and the spec's fifth scenario.\<close>

lemma unknown_load_still_assigned:
  "bulk_auto_assign_balanced scorer_down (desk [ticket 10 ''low'' ''new'' None]) 5
        [ticket 10 ''low'' ''new'' None]
     = ((1, []), desk [(ticket 10 ''low'' ''assigned'' (Some 1))\<lparr>updated_at := Some 5\<rparr>])"
  by (simp add: bulk_auto_assign_balanced_def get_available_technicians_def
      calculate_technician_workload_def sorted_requests_def batch_defs update_defs desk_defs
      scorer_down_def)

lemma sorted_backlog: "map request_id (sorted_requests backlog) = [21, 22, 23, 24]"
  by (simp add: sorted_requests_def backlog_def ticket_def priority_rank_def dict_get_def)

lemma balanced_backlog:
  "fst (bulk_auto_assign_balanced no_faults (desk backlog) 5 backlog) = (4, [])
   \<and> map (\<lambda>t. (request_id t, assigned_to t))
        (help_requests (snd (bulk_auto_assign_balanced no_faults (desk backlog) 5 backlog)))
     = [(24, Some 2), (22, Some 2), (23, Some 1), (21, Some 1)]"
  by (simp add: bulk_auto_assign_balanced_def get_available_technicians_def
      calculate_technician_workload_def active_load_def sorted_requests_def batch_defs
      update_defs desk_defs backlog_def priority_rank_def)

end
